theory Spec2Isabelle
  imports Complex_Main
begin

section \<open>The Leaflet interop module\<close>

text \<open>
  The module \<^verbatim>\<open>leafletInterop.js\<close> keeps one module-level object, \<^verbatim>\<open>maps\<close>, and exports
  six functions that look a map up in it and forward to the Leaflet library. The embedding
  threads a \<open>world\<close> through every function: the own properties of \<^verbatim>\<open>maps\<close>, the Leaflet
  objects that exist, the identifiers that \<^verbatim>\<open>document.getElementById\<close> finds on the page, the
  pending timers and the lines written with \<^verbatim>\<open>console.error\<close>. A function returns the
  world it leaves behind also when it throws, since what it did before the exception stays
  done.

  Numbers are handed to the library untouched (the module does no arithmetic), so they are
  taken as rationals. Leaflet itself is not part of the module: it is modelled by the
  objects it creates and the one link the module relies on, the map a layer is on. Calls to
  the library with a map and a layer succeed.
\<close>

subsection \<open>JavaScript values\<close>

type_synonym number = rat

text \<open>What a string-typed argument can hold when the host passes it.\<close>

datatype jsval = JUndefined | JNull | JString string

fun truthy :: "jsval \<Rightarrow> bool" where
  "truthy JUndefined = False"
| "truthy JNull = False"
| "truthy (JString s) = (s \<noteq> [])"

text \<open>\<^verbatim>\<open>a || b\<close>\<close>

definition orElse :: "jsval \<Rightarrow> jsval \<Rightarrow> jsval" where
  "orElse a b = (if truthy a then a else b)"

datatype fault = TypeError

datatype outcome = Returned | Threw fault

subsection \<open>Leaflet objects\<close>

type_synonym handle = nat

text \<open>
  \<open>GroupBounds ls\<close> stands for \<^verbatim>\<open>L.featureGroup(ls).getBounds()\<close> and \<open>Pad b r\<close> for
  \<^verbatim>\<open>b.pad(r)\<close>; the library computes both.
\<close>

datatype bounds = GroupBounds "handle list" | Pad bounds number

text \<open>
  The view of a map is the last one asked for: \<^verbatim>\<open>setView([lat, lng], zoom)\<close> or
  \<^verbatim>\<open>fitBounds(bounds)\<close>.
\<close>

datatype view = SetView number number number | FittedTo bounds

record lmap =
  container :: string
  view :: view

text \<open>
  \<open>Marker lat lng title popup\<close>, \<open>Circle lat lng radius color fillColor fillOpacity\<close> and
  \<open>TileLayer url attribution maxZoom\<close>.
\<close>

datatype shape =
    Marker number number jsval "jsval option"
  | Circle number number number string string number
  | TileLayer string string nat

fun isOverlay :: "shape \<Rightarrow> bool" where
  "isOverlay (Marker _ _ _ _) = True"
| "isOverlay (Circle _ _ _ _ _ _) = True"
| "isOverlay (TileLayer _ _ _) = False"

fun popupOf :: "shape \<Rightarrow> jsval option" where
  "popupOf (Marker _ _ _ p) = p"
| "popupOf _ = None"

record layer =
  shape :: shape
  onMap :: "handle option"

datatype lobject = MapObj lmap | LayerObj layer

subsection \<open>The state of the module and of its surroundings\<close>

text \<open>An entry of \<^verbatim>\<open>maps\<close>: \<^verbatim>\<open>{ map: map, layers: [] }\<close>.\<close>

record mapData =
  map_handle :: handle
  layers :: "handle list"

datatype diagnostic =
    SurfaceNotFound string    \<comment> \<open>\<^verbatim>\<open>Map element with ID '...' not found\<close>\<close>
  | MapNotInitialized string  \<comment> \<open>\<^verbatim>\<open>Map '...' not initialized\<close>\<close>

text \<open>The arrow function handed to \<^verbatim>\<open>setTimeout\<close>, with the variables it closes over.\<close>

datatype callback = InitializeAttempt string number number number

record world =
  maps :: "string \<rightharpoonup> mapData"
  heap :: "handle \<rightharpoonup> lobject"
  nextHandle :: handle
  dom_ids :: "string set"
  timers :: "(callback \<times> nat) list"
  console :: "diagnostic list"

definition initialWorld :: world where
  "initialWorld = \<lparr>maps = Map.empty, heap = Map.empty, nextHandle = 0, dom_ids = {},
     timers = [], console = []\<rparr>"

text \<open>
  \<^verbatim>\<open>let maps = {};\<close> is an object literal, so \<^verbatim>\<open>maps[mapId]\<close> finds an own property first and
  then the properties of \<^verbatim>\<open>Object.prototype\<close>, all of which are functions or objects, hence
  truthy, and none of which has a \<^verbatim>\<open>map\<close> or a \<^verbatim>\<open>layers\<close> property.
\<close>

definition objectPrototypeKeys :: "string list" where
  "objectPrototypeKeys =
     [''constructor'', ''__defineGetter__'', ''__defineSetter__'', ''hasOwnProperty'',
      ''__lookupGetter__'', ''__lookupSetter__'', ''isPrototypeOf'', ''propertyIsEnumerable'',
      ''toString'', ''valueOf'', ''__proto__'', ''toLocaleString'']"

datatype lookup = Undefined | Inherited | Entry mapData

text \<open>\<^verbatim>\<open>maps[mapId]\<close>\<close>

definition getMaps :: "world \<Rightarrow> string \<Rightarrow> lookup" where
  "getMaps w mapId =
     (case maps w mapId of
        Some e \<Rightarrow> Entry e
      | None \<Rightarrow> if mapId \<in> set objectPrototypeKeys then Inherited else Undefined)"

text \<open>\<^verbatim>\<open>mapData.map\<close>, where \<open>None\<close> is \<^verbatim>\<open>undefined\<close>.\<close>

fun mapOf :: "lookup \<Rightarrow> handle option" where
  "mapOf (Entry e) = Some (map_handle e)"
| "mapOf _ = None"

subsection \<open>The library calls the module makes\<close>

text \<open>Every constructor of the library returns a new object.\<close>

definition alloc :: "lobject \<Rightarrow> world \<Rightarrow> handle \<times> world" where
  "alloc obj w =
     (nextHandle w, w\<lparr>heap := (heap w)(nextHandle w \<mapsto> obj), nextHandle := Suc (nextHandle w)\<rparr>)"

text \<open>\<^verbatim>\<open>layer.addTo(map)\<close> calls \<^verbatim>\<open>map.addLayer(layer)\<close>, which faults on \<^verbatim>\<open>undefined\<close>.\<close>

definition addTo :: "handle \<Rightarrow> handle option \<Rightarrow> world \<Rightarrow> outcome \<times> world" where
  "addTo h target w =
     (case target of
        None \<Rightarrow> (Threw TypeError, w)
      | Some m \<Rightarrow>
          (case heap w m of
             Some (MapObj _) \<Rightarrow>
               (case heap w h of
                  Some (LayerObj l) \<Rightarrow>
                    (Returned, w\<lparr>heap := (heap w)(h \<mapsto> LayerObj (l\<lparr>onMap := Some m\<rparr>))\<rparr>)
                | _ \<Rightarrow> (Threw TypeError, w))
           | _ \<Rightarrow> (Threw TypeError, w)))"

text \<open>\<^verbatim>\<open>marker.bindPopup(content)\<close>\<close>

definition bindPopup :: "handle \<Rightarrow> jsval \<Rightarrow> world \<Rightarrow> world" where
  "bindPopup h content w =
     (case heap w h of
        Some (LayerObj l) \<Rightarrow>
          (case shape l of
             Marker la lo t _ \<Rightarrow>
               w\<lparr>heap := (heap w)(h \<mapsto> LayerObj (l\<lparr>shape := Marker la lo t (Some content)\<rparr>))\<rparr>
           | _ \<Rightarrow> w)
      | _ \<Rightarrow> w)"

text \<open>\<^verbatim>\<open>map.removeLayer(layer)\<close> does nothing to a layer that is not on the map.\<close>

definition removeLayer :: "handle \<Rightarrow> handle \<Rightarrow> world \<Rightarrow> world" where
  "removeLayer m h w =
     (case heap w h of
        Some (LayerObj l) \<Rightarrow>
          if onMap l = Some m then w\<lparr>heap := (heap w)(h \<mapsto> LayerObj (l\<lparr>onMap := None\<rparr>))\<rparr>
          else w
      | _ \<Rightarrow> w)"

text \<open>\<^verbatim>\<open>map.fitBounds(bounds)\<close>\<close>

definition mapFitBounds :: "handle \<Rightarrow> bounds \<Rightarrow> world \<Rightarrow> outcome \<times> world" where
  "mapFitBounds m b w =
     (case heap w m of
        Some (MapObj mo) \<Rightarrow> (Returned, w\<lparr>heap := (heap w)(m \<mapsto> MapObj (mo\<lparr>view := FittedTo b\<rparr>))\<rparr>)
      | _ \<Rightarrow> (Threw TypeError, w))"

subsection \<open>The exported functions\<close>

definition consoleError :: "diagnostic \<Rightarrow> world \<Rightarrow> world" where
  "consoleError d w = w\<lparr>console := console w @ [d]\<rparr>"

definition tileUrl :: string where
  "tileUrl = ''https://{s}.tile.openstreetmap.org/{z}/{x}/{y}.png''"

definition tileAttribution :: string where
  "tileAttribution =
     ''&copy; <a href='' @ [CHR 0x22] @ ''https://www.openstreetmap.org/copyright'' @ [CHR 0x22]
       @ ''>OpenStreetMap</a> contributors''"

text \<open>
  \<^verbatim>\<open>initializeMap\<close> only hands its body to \<^verbatim>\<open>setTimeout(..., 100)\<close>; the body is
  \<open>initializeAttempt\<close>, run by \<open>runTimer\<close> when the timer fires.
\<close>

definition initializeMap :: "string \<Rightarrow> number \<Rightarrow> number \<Rightarrow> number \<Rightarrow> world \<Rightarrow> outcome \<times> world" where
  "initializeMap mapId latitude longitude zoom w =
     (Returned, w\<lparr>timers := timers w @ [(InitializeAttempt mapId latitude longitude zoom, 100)]\<rparr>)"

definition initializeAttempt :: "string \<Rightarrow> number \<Rightarrow> number \<Rightarrow> number \<Rightarrow> world \<Rightarrow> outcome \<times> world" where
  "initializeAttempt mapId latitude longitude zoom w =
     (if mapId \<notin> dom_ids w then (Returned, consoleError (SurfaceNotFound mapId) w)
      else
        (case getMaps w mapId of
           Undefined \<Rightarrow>
             (let (m, w1) = alloc (MapObj \<lparr>container = mapId, view = SetView latitude longitude zoom\<rparr>) w;
                  (t, w2) = alloc (LayerObj \<lparr>shape = TileLayer tileUrl tileAttribution 18, onMap = None\<rparr>) w1
              in case addTo t (Some m) w2 of
                   (Threw f, w3) \<Rightarrow> (Threw f, w3)
                 | (Returned, w3) \<Rightarrow>
                     (Returned, w3\<lparr>maps := (maps w3)(mapId \<mapsto> \<lparr>map_handle = m, layers = []\<rparr>)\<rparr>))
         | _ \<Rightarrow> (Returned, w)))"

text \<open>All timers have the same delay, so they fire in the order they were set.\<close>

definition runTimer :: "world \<Rightarrow> outcome \<times> world" where
  "runTimer w =
     (case timers w of
        [] \<Rightarrow> (Returned, w)
      | (InitializeAttempt mapId latitude longitude zoom, _) # rest \<Rightarrow>
          initializeAttempt mapId latitude longitude zoom (w\<lparr>timers := rest\<rparr>))"

text \<open>\<^verbatim>\<open>mapData.layers.push(layer)\<close>, where \<^verbatim>\<open>mapData\<close> is \<^verbatim>\<open>maps[mapId]\<close>.\<close>

definition pushLayer :: "string \<Rightarrow> handle \<Rightarrow> world \<Rightarrow> outcome \<times> world" where
  "pushLayer mapId h w =
     (case getMaps w mapId of
        Entry e \<Rightarrow> (Returned, w\<lparr>maps := (maps w)(mapId \<mapsto> e\<lparr>layers := layers e @ [h]\<rparr>)\<rparr>)
      | _ \<Rightarrow> (Threw TypeError, w))"

text \<open>
  The lines that \<^verbatim>\<open>addMarker\<close> and the loop body of \<^verbatim>\<open>addMarkers\<close> share: create the marker,
  add it to \<^verbatim>\<open>mapData.map\<close>, bind the popup when the content is truthy, push the marker.
\<close>

definition placeMarker :: "string \<Rightarrow> number \<Rightarrow> number \<Rightarrow> jsval \<Rightarrow> jsval \<Rightarrow> world \<Rightarrow> outcome \<times> world" where
  "placeMarker mapId latitude longitude title popupContent w =
     (let (h, w1) = alloc (LayerObj \<lparr>shape = Marker latitude longitude title None, onMap = None\<rparr>) w
      in case addTo h (mapOf (getMaps w1 mapId)) w1 of
           (Threw f, w2) \<Rightarrow> (Threw f, w2)
         | (Returned, w2) \<Rightarrow>
             pushLayer mapId h (if truthy popupContent then bindPopup h popupContent w2 else w2))"

definition addMarker :: "string \<Rightarrow> number \<Rightarrow> number \<Rightarrow> jsval \<Rightarrow> jsval \<Rightarrow> world \<Rightarrow> outcome \<times> world" where
  "addMarker mapId latitude longitude title popupContent w =
     (case getMaps w mapId of
        Undefined \<Rightarrow> (Returned, consoleError (MapNotInitialized mapId) w)
      | _ \<Rightarrow> placeMarker mapId latitude longitude title popupContent w)"

record markerData =
  lat :: number
  lng :: number
  title :: jsval
  popup :: jsval

text \<open>\<^verbatim>\<open>markers.forEach(markerData => ...)\<close>: an exception ends the loop.\<close>

fun forEachMarker :: "string \<Rightarrow> markerData list \<Rightarrow> world \<Rightarrow> outcome \<times> world" where
  "forEachMarker mapId [] w = (Returned, w)"
| "forEachMarker mapId (md # rest) w =
     (case placeMarker mapId (lat md) (lng md) (orElse (title md) (JString [])) (popup md) w of
        (Threw f, w') \<Rightarrow> (Threw f, w')
      | (Returned, w') \<Rightarrow> forEachMarker mapId rest w')"

definition addMarkers :: "string \<Rightarrow> markerData list \<Rightarrow> world \<Rightarrow> outcome \<times> world" where
  "addMarkers mapId markers w =
     (case getMaps w mapId of
        Undefined \<Rightarrow> (Returned, consoleError (MapNotInitialized mapId) w)
      | _ \<Rightarrow> forEachMarker mapId markers w)"

definition addCircle ::
  "string \<Rightarrow> number \<Rightarrow> number \<Rightarrow> number \<Rightarrow> string \<Rightarrow> string \<Rightarrow> number \<Rightarrow> world \<Rightarrow> outcome \<times> world" where
  "addCircle mapId latitude longitude radius color fillColor fillOpacity w =
     (case getMaps w mapId of
        Undefined \<Rightarrow> (Returned, consoleError (MapNotInitialized mapId) w)
      | _ \<Rightarrow>
          (let (h, w1) = alloc (LayerObj \<lparr>shape = Circle latitude longitude radius color fillColor fillOpacity,
                                         onMap = None\<rparr>) w
           in case addTo h (mapOf (getMaps w1 mapId)) w1 of
                (Threw f, w2) \<Rightarrow> (Threw f, w2)
              | (Returned, w2) \<Rightarrow> pushLayer mapId h w2))"

text \<open>
  On an inherited property \<^verbatim>\<open>mapData.layers\<close> is \<^verbatim>\<open>undefined\<close>, and \<^verbatim>\<open>clearMap\<close> and
  \<^verbatim>\<open>fitBounds\<close> fault on \<^verbatim>\<open>undefined.forEach\<close> and \<^verbatim>\<open>undefined.length\<close>.
\<close>

definition clearMap :: "string \<Rightarrow> world \<Rightarrow> outcome \<times> world" where
  "clearMap mapId w =
     (case getMaps w mapId of
        Undefined \<Rightarrow> (Returned, consoleError (MapNotInitialized mapId) w)
      | Inherited \<Rightarrow> (Threw TypeError, w)
      | Entry e \<Rightarrow>
          (let w1 = fold (removeLayer (map_handle e)) (layers e) w
           in (Returned, w1\<lparr>maps := (maps w1)(mapId \<mapsto> e\<lparr>layers := []\<rparr>)\<rparr>)))"

definition fitBounds :: "string \<Rightarrow> world \<Rightarrow> outcome \<times> world" where
  "fitBounds mapId w =
     (case getMaps w mapId of
        Undefined \<Rightarrow> (Returned, consoleError (MapNotInitialized mapId) w)
      | Inherited \<Rightarrow> (Threw TypeError, w)
      | Entry e \<Rightarrow>
          if length (layers e) > 0
          then mapFitBounds (map_handle e) (Pad (GroupBounds (layers e)) (1 / 10)) w
          else (Returned, w))"

subsection \<open>Runs of the module\<close>

text \<open>
  What can happen next: the host calls an exported function, the oldest timer fires, or the
  host mounts or unmounts an element.
\<close>

datatype event =
    CallInitializeMap string number number number
  | CallAddMarker string number number jsval jsval
  | CallAddMarkers string "markerData list"
  | CallAddCircle string number number number string string number
  | CallClearMap string
  | CallFitBounds string
  | TimerFires
  | Mounts string
  | Unmounts string

fun step :: "event \<Rightarrow> world \<Rightarrow> outcome \<times> world" where
  "step (CallInitializeMap i la lo z) w = initializeMap i la lo z w"
| "step (CallAddMarker i la lo t p) w = addMarker i la lo t p w"
| "step (CallAddMarkers i ms) w = addMarkers i ms w"
| "step (CallAddCircle i la lo r c fc fo) w = addCircle i la lo r c fc fo w"
| "step (CallClearMap i) w = clearMap i w"
| "step (CallFitBounds i) w = fitBounds i w"
| "step TimerFires w = runTimer w"
| "step (Mounts i) w = (Returned, w\<lparr>dom_ids := insert i (dom_ids w)\<rparr>)"
| "step (Unmounts i) w = (Returned, w\<lparr>dom_ids := dom_ids w - {i}\<rparr>)"

definition run :: "event list \<Rightarrow> world \<Rightarrow> world" where
  "run evs w = fold (\<lambda>ev w'. snd (step ev w')) evs w"

subsection \<open>Well-formed worlds and summaries of effects\<close>

text \<open>
  The invariant of the runs: handles are handed out in order, every entry has a map object of
  its own, and the layers it lists are markers and circles on that map.
\<close>

definition wellFormed :: "world \<Rightarrow> bool" where
  "wellFormed w \<longleftrightarrow>
     (\<forall>h. nextHandle w \<le> h \<longrightarrow> heap w h = None) \<and>
     (\<forall>i e. maps w i = Some e \<longrightarrow>
        (\<exists>m. heap w (map_handle e) = Some (MapObj m)) \<and>
        (\<forall>h\<in>set (layers e). \<exists>l. heap w h = Some (LayerObj l) \<and> onMap l = Some (map_handle e)
           \<and> isOverlay (shape l))) \<and>
     (\<forall>i j e e'. maps w i = Some e \<longrightarrow> maps w j = Some e' \<longrightarrow> map_handle e = map_handle e' \<longrightarrow> i = j)"

text \<open>The world after a layer of shape s has been created, added to the map of entry e and pushed.\<close>

definition placed :: "string \<Rightarrow> mapData \<Rightarrow> shape \<Rightarrow> world \<Rightarrow> world" where
  "placed i e s w =
     w\<lparr>heap := (heap w)(nextHandle w \<mapsto> LayerObj \<lparr>shape = s, onMap = Some (map_handle e)\<rparr>),
       nextHandle := Suc (nextHandle w),
       maps := (maps w)(i \<mapsto> e\<lparr>layers := layers e @ [nextHandle w]\<rparr>)\<rparr>"

definition markerShape :: "markerData \<Rightarrow> shape" where
  "markerShape md =
     Marker (lat md) (lng md) (orElse (title md) (JString []))
       (if truthy (popup md) then Some (popup md) else None)"

text \<open>What removeLayer m leaves of an object.\<close>

definition detached :: "handle \<Rightarrow> lobject option \<Rightarrow> lobject option" where
  "detached m obj =
     (case obj of
        Some (LayerObj l) \<Rightarrow> if onMap l = Some m then Some (LayerObj (l\<lparr>onMap := None\<rparr>)) else obj
      | _ \<Rightarrow> obj)"

text \<open>The world after the deferred body has created the map of an element.\<close>

definition created :: "string \<Rightarrow> number \<Rightarrow> number \<Rightarrow> number \<Rightarrow> world \<Rightarrow> world" where
  "created i la lo z w =
     w\<lparr>heap := (heap w)
         (nextHandle w \<mapsto> MapObj \<lparr>container = i, view = SetView la lo z\<rparr>,
          Suc (nextHandle w) \<mapsto>
            LayerObj \<lparr>shape = TileLayer tileUrl tileAttribution 18, onMap = Some (nextHandle w)\<rparr>),
       nextHandle := Suc (Suc (nextHandle w)),
       maps := (maps w)(i \<mapsto> \<lparr>map_handle = nextHandle w, layers = []\<rparr>)\<rparr>"

text \<open>
  Every layer an entry lists is a marker or a circle that is on the map of that entry, and no
  other entry has that map.
\<close>

definition layersOwned :: "world \<Rightarrow> bool" where
  "layersOwned w \<longleftrightarrow>
     (\<forall>i e h. maps w i = Some e \<longrightarrow> h \<in> set (layers e) \<longrightarrow>
        (\<exists>l. heap w h = Some (LayerObj l) \<and> isOverlay (shape l) \<and> onMap l = Some (map_handle e)) \<and>
        (\<forall>j e'. maps w j = Some e' \<longrightarrow> j \<noteq> i \<longrightarrow> map_handle e' \<noteq> map_handle e))"

subsection \<open>Scenarios\<close>

text \<open>Three short runs from the freshly loaded module, used to try the theorems on.\<close>

definition circleScenario :: world where
  "circleScenario =
     run [Mounts ''m1'', CallInitializeMap ''m1'' 51.5 (- 0.1) 13, TimerFires,
          CallAddCircle ''m1'' 51.5 (- 0.1) 500 ''red'' ''red'' 0.3] initialWorld"

definition emptyMapScenario :: world where
  "emptyMapScenario =
     run [Mounts ''m1'', CallInitializeMap ''m1'' 10 20 5, TimerFires] initialWorld"

definition twoMapsScenario :: world where
  "twoMapsScenario =
     run [Mounts ''m1'', Mounts ''m2'', CallInitializeMap ''m1'' 10 20 5,
          CallInitializeMap ''m2'' 30 40 6, TimerFires, TimerFires,
          CallAddMarker ''m2'' 1 2 (JString ''t'') (JString ''p''),
          CallAddCircle ''m1'' 3 4 500 ''red'' ''red'' 0.3] initialWorld"

section \<open>Properties\<close>

subsection \<open>Lookups and well-formedness\<close>

text \<open>
  The freshly loaded module is well-formed and every step keeps a world well-formed
  (\<open>wellFormed_initial\<close>, \<open>wellFormed_step\<close>, \<open>wellFormed_run\<close> below), so a theorem
  that assumes \<open>wellFormed\<close> speaks about every state the module can be in.
\<close>

lemmas exec_defs =
  run_def initialWorld_def initializeMap_def runTimer_def initializeAttempt_def getMaps_def
  objectPrototypeKeys_def alloc_def addTo_def bindPopup_def removeLayer_def mapFitBounds_def
  consoleError_def pushLayer_def placeMarker_def addMarker_def addMarkers_def addCircle_def
  clearMap_def fitBounds_def orElse_def

lemma getMaps_Some: "maps w i = Some e \<Longrightarrow> getMaps w i = Entry e"
  by (simp add: getMaps_def)

lemma getMaps_Undefined: "getMaps w i = Undefined \<Longrightarrow> maps w i = None"
  by (simp add: getMaps_def split: option.splits if_splits)

lemma getMaps_cong: "maps w' = maps w \<Longrightarrow> getMaps w' i = getMaps w i"
  by (simp add: getMaps_def)

lemma wellFormed_cong:
  "maps w' = maps w \<Longrightarrow> heap w' = heap w \<Longrightarrow> nextHandle w' = nextHandle w \<Longrightarrow>
   wellFormed w' = wellFormed w"
  by (simp add: wellFormed_def)

lemma wellFormed_initial: "wellFormed initialWorld"
  by (simp add: wellFormed_def initialWorld_def)

lemma wellFormed_fresh: "wellFormed w \<Longrightarrow> heap w h = Some obj \<Longrightarrow> h < nextHandle w"
  unfolding wellFormed_def by (metis not_le option.distinct(1))

lemma wellFormed_map:
  "wellFormed w \<Longrightarrow> maps w i = Some e \<Longrightarrow> \<exists>m. heap w (map_handle e) = Some (MapObj m)"
  unfolding wellFormed_def by blast

lemma wellFormed_layer:
  "wellFormed w \<Longrightarrow> maps w i = Some e \<Longrightarrow> h \<in> set (layers e) \<Longrightarrow>
   \<exists>l. heap w h = Some (LayerObj l) \<and> onMap l = Some (map_handle e) \<and> isOverlay (shape l)"
  unfolding wellFormed_def by blast

lemma wellFormed_inj:
  "wellFormed w \<Longrightarrow> maps w i = Some e \<Longrightarrow> maps w j = Some e' \<Longrightarrow>
   map_handle e = map_handle e' \<Longrightarrow> i = j"
  unfolding wellFormed_def by blast

lemma wellFormedI:
  assumes "\<And>h. nextHandle w \<le> h \<Longrightarrow> heap w h = None"
    and "\<And>i e. maps w i = Some e \<Longrightarrow> \<exists>m. heap w (map_handle e) = Some (MapObj m)"
    and "\<And>i e h. maps w i = Some e \<Longrightarrow> h \<in> set (layers e) \<Longrightarrow>
           \<exists>l. heap w h = Some (LayerObj l) \<and> onMap l = Some (map_handle e) \<and> isOverlay (shape l)"
    and "\<And>i j e e'. maps w i = Some e \<Longrightarrow> maps w j = Some e' \<Longrightarrow>
           map_handle e = map_handle e' \<Longrightarrow> i = j"
  shows "wellFormed w"
  unfolding wellFormed_def using assms by blast

lemma wellFormed_map_fresh:
  "wellFormed w \<Longrightarrow> maps w i = Some e \<Longrightarrow> map_handle e < nextHandle w"
  using wellFormed_map wellFormed_fresh by blast

lemma wellFormed_layer_fresh:
  "wellFormed w \<Longrightarrow> maps w i = Some e \<Longrightarrow> h \<in> set (layers e) \<Longrightarrow> h < nextHandle w"
  using wellFormed_layer wellFormed_fresh by blast

lemma wellFormed_alloc:
  assumes "wellFormed w"
  shows "wellFormed (snd (alloc obj w))"
proof (rule wellFormedI)
  fix h assume "nextHandle (snd (alloc obj w)) \<le> h"
  then show "heap (snd (alloc obj w)) h = None"
    using assms by (simp add: alloc_def wellFormed_def)
next
  fix i e assume "maps (snd (alloc obj w)) i = Some e"
  then have e: "maps w i = Some e" by (simp add: alloc_def)
  from wellFormed_map[OF assms e] wellFormed_map_fresh[OF assms e]
  show "\<exists>m. heap (snd (alloc obj w)) (map_handle e) = Some (MapObj m)"
    by (auto simp: alloc_def)
next
  fix i e h assume "maps (snd (alloc obj w)) i = Some e" and h: "h \<in> set (layers e)"
  then have e: "maps w i = Some e" by (simp add: alloc_def)
  from wellFormed_layer[OF assms e h] wellFormed_layer_fresh[OF assms e h]
  show "\<exists>l. heap (snd (alloc obj w)) h = Some (LayerObj l) \<and> onMap l = Some (map_handle e)
          \<and> isOverlay (shape l)"
    by (auto simp: alloc_def)
next
  fix i j e e'
  assume "maps (snd (alloc obj w)) i = Some e" "maps (snd (alloc obj w)) j = Some e'"
    "map_handle e = map_handle e'"
  then show "i = j" using wellFormed_inj[OF assms, of i e j e'] by (simp add: alloc_def)
qed

lemma wellFormed_placed:
  assumes wf: "wellFormed w" and e: "maps w i = Some e" and s: "isOverlay s"
  shows "wellFormed (placed i e s w)"
proof (rule wellFormedI)
  fix h assume "nextHandle (placed i e s w) \<le> h"
  then show "heap (placed i e s w) h = None"
    using wf by (simp add: placed_def wellFormed_def)
next
  fix j e' assume a: "maps (placed i e s w) j = Some e'"
  show "\<exists>m. heap (placed i e s w) (map_handle e') = Some (MapObj m)"
  proof (cases "j = i")
    case True
    with a have "map_handle e' = map_handle e" by (auto simp: placed_def)
    with wellFormed_map[OF wf e] wellFormed_map_fresh[OF wf e] show ?thesis
      by (auto simp: placed_def)
  next
    case False
    with a have e': "maps w j = Some e'" by (simp add: placed_def)
    from wellFormed_map[OF wf e'] wellFormed_map_fresh[OF wf e'] show ?thesis
      by (auto simp: placed_def)
  qed
next
  fix j e' h assume a: "maps (placed i e s w) j = Some e'" and h: "h \<in> set (layers e')"
  show "\<exists>l. heap (placed i e s w) h = Some (LayerObj l) \<and> onMap l = Some (map_handle e')
          \<and> isOverlay (shape l)"
  proof (cases "j = i")
    case True
    with a have e': "e' = e\<lparr>layers := layers e @ [nextHandle w]\<rparr>" by (auto simp: placed_def)
    show ?thesis
    proof (cases "h = nextHandle w")
      case True
      then show ?thesis using e' s by (simp add: placed_def)
    next
      case False
      with h e' have "h \<in> set (layers e)" by simp
      from wellFormed_layer[OF wf e this] False e' show ?thesis
        by (auto simp: placed_def)
    qed
  next
    case False
    with a have e': "maps w j = Some e'" by (simp add: placed_def)
    from wellFormed_layer[OF wf e' h] wellFormed_layer_fresh[OF wf e' h] show ?thesis
      by (auto simp: placed_def)
  qed
next
  fix j k e1 e2
  assume a: "maps (placed i e s w) j = Some e1" "maps (placed i e s w) k = Some e2"
    "map_handle e1 = map_handle e2"
  have "\<exists>e1'. maps w j = Some e1' \<and> map_handle e1' = map_handle e1"
    using a(1) e by (cases "j = i") (auto simp: placed_def)
  moreover have "\<exists>e2'. maps w k = Some e2' \<and> map_handle e2' = map_handle e2"
    using a(2) e by (cases "k = i") (auto simp: placed_def)
  ultimately show "j = k" using wellFormed_inj[OF wf] a(3) by metis
qed

lemma placeMarker_entry:
  assumes wf: "wellFormed w" and e: "maps w i = Some e"
  shows "placeMarker i la lo t p w =
           (Returned, placed i e (Marker la lo t (if truthy p then Some p else None)) w)"
proof -
  from wellFormed_map[OF wf e] obtain m where m: "heap w (map_handle e) = Some (MapObj m)" by blast
  from wellFormed_map_fresh[OF wf e] have ne: "map_handle e \<noteq> nextHandle w" by simp
  show ?thesis
    using e m ne
    by (simp add: placeMarker_def alloc_def getMaps_def addTo_def bindPopup_def pushLayer_def
        placed_def)
qed

lemma placeMarker_no_entry:
  assumes "maps w i = None"
  shows "placeMarker i la lo t p w =
           (Threw TypeError, snd (alloc (LayerObj \<lparr>shape = Marker la lo t None, onMap = None\<rparr>) w))"
  using assms by (simp add: placeMarker_def alloc_def getMaps_def addTo_def)

lemma wellFormed_placeMarker:
  assumes "wellFormed w"
  shows "wellFormed (snd (placeMarker i la lo t p w))"
proof (cases "maps w i")
  case None
  then show ?thesis using wellFormed_alloc[OF assms] by (simp add: placeMarker_no_entry)
next
  case (Some e)
  then show ?thesis using wellFormed_placed[OF assms Some] by (simp add: placeMarker_entry[OF assms])
qed

lemma upt_shift: "n # [Suc n..<Suc n + k] = [n..<n + Suc k]"
  by (simp add: upt_conv_Cons del: upt_Suc)

lemma forEachMarker_entry:
  "wellFormed w \<Longrightarrow> maps w i = Some e \<Longrightarrow>
   \<exists>w'. forEachMarker i ms w = (Returned, w') \<and> wellFormed w'
     \<and> maps w' = (maps w)(i \<mapsto> e\<lparr>layers := layers e @ [nextHandle w..<nextHandle w + length ms]\<rparr>)
     \<and> nextHandle w' = nextHandle w + length ms
     \<and> (\<forall>h<nextHandle w. heap w' h = heap w h)
     \<and> (\<forall>k<length ms. heap w' (nextHandle w + k) =
           Some (LayerObj \<lparr>shape = markerShape (ms ! k), onMap = Some (map_handle e)\<rparr>))
     \<and> dom_ids w' = dom_ids w \<and> timers w' = timers w \<and> console w' = console w"
proof (induction ms arbitrary: w e)
  case Nil
  then show ?case by (auto simp: fun_eq_iff)
next
  case (Cons md rest)
  let ?s = "markerShape md"
  let ?w1 = "placed i e ?s w"
  let ?e1 = "e\<lparr>layers := layers e @ [nextHandle w]\<rparr>"
  have pm: "placeMarker i (lat md) (lng md) (orElse (title md) (JString [])) (popup md) w
              = (Returned, ?w1)"
    using placeMarker_entry[OF Cons.prems] by (simp add: markerShape_def)
  have wf1: "wellFormed ?w1"
    using wellFormed_placed[OF Cons.prems] by (simp add: markerShape_def)
  have e1: "maps ?w1 i = Some ?e1" by (simp add: placed_def)
  from Cons.IH[OF wf1 e1] obtain w' where
    run: "forEachMarker i rest ?w1 = (Returned, w')" and wf': "wellFormed w'"
    and m': "maps w' = (maps ?w1)(i \<mapsto> ?e1\<lparr>layers := layers ?e1 @ [nextHandle ?w1..<nextHandle ?w1 + length rest]\<rparr>)"
    and n': "nextHandle w' = nextHandle ?w1 + length rest"
    and old: "\<forall>h<nextHandle ?w1. heap w' h = heap ?w1 h"
    and new: "\<forall>k<length rest. heap w' (nextHandle ?w1 + k) =
                Some (LayerObj \<lparr>shape = markerShape (rest ! k), onMap = Some (map_handle ?e1)\<rparr>)"
    and rest: "dom_ids w' = dom_ids ?w1" "timers w' = timers ?w1" "console w' = console ?w1"
    by blast
  have n1: "nextHandle ?w1 = Suc (nextHandle w)" by (simp add: placed_def)
  have "forEachMarker i (md # rest) w = (Returned, w')" using pm run by simp
  moreover have "maps w' = (maps w)(i \<mapsto> e\<lparr>layers := layers e @ [nextHandle w..<nextHandle w + length (md # rest)]\<rparr>)"
    using m' n1 upt_shift[of "nextHandle w" "length rest"] by (simp add: placed_def del: upt_Suc)
  moreover have "nextHandle w' = nextHandle w + length (md # rest)" using n' n1 by simp
  moreover have "\<forall>h<nextHandle w. heap w' h = heap w h"
    using old n1 by (simp add: placed_def)
  moreover have "\<forall>k<length (md # rest). heap w' (nextHandle w + k) =
      Some (LayerObj \<lparr>shape = markerShape ((md # rest) ! k), onMap = Some (map_handle e)\<rparr>)"
  proof (intro allI impI)
    fix k assume k: "k < length (md # rest)"
    show "heap w' (nextHandle w + k) =
      Some (LayerObj \<lparr>shape = markerShape ((md # rest) ! k), onMap = Some (map_handle e)\<rparr>)"
    proof (cases k)
      case 0
      then show ?thesis using old n1 by (simp add: placed_def)
    next
      case (Suc k')
      with k have "k' < length rest" by simp
      with new have "heap w' (nextHandle ?w1 + k') =
                Some (LayerObj \<lparr>shape = markerShape (rest ! k'), onMap = Some (map_handle ?e1)\<rparr>)"
        by blast
      then show ?thesis using Suc n1 by simp
    qed
  qed
  moreover have "dom_ids w' = dom_ids w" "timers w' = timers w" "console w' = console w"
    using rest by (simp_all add: placed_def)
  ultimately show ?case using wf' by blast
qed

lemma wellFormed_forEachMarker:
  assumes "wellFormed w"
  shows "wellFormed (snd (forEachMarker i ms w))"
proof (cases "maps w i")
  case None
  show ?thesis
  proof (cases ms)
    case Nil
    then show ?thesis using assms by simp
  next
    case (Cons md rest)
    then show ?thesis using wellFormed_alloc[OF assms] None by (simp add: placeMarker_no_entry)
  qed
next
  case (Some e)
  from forEachMarker_entry[OF assms Some, of ms] show ?thesis by auto
qed

lemma addCircle_entry:
  assumes wf: "wellFormed w" and e: "maps w i = Some e"
  shows "addCircle i la lo r c fc fo w = (Returned, placed i e (Circle la lo r c fc fo) w)"
proof -
  from wellFormed_map[OF wf e] obtain m where m: "heap w (map_handle e) = Some (MapObj m)" by blast
  from wellFormed_map_fresh[OF wf e] have ne: "map_handle e \<noteq> nextHandle w" by simp
  show ?thesis
    using e m ne
    by (simp add: addCircle_def alloc_def getMaps_def addTo_def pushLayer_def placed_def)
qed

lemma wellFormed_console: "wellFormed (consoleError d w) = wellFormed w"
  by (rule wellFormed_cong) (simp_all add: consoleError_def)

lemma wellFormed_addCircle:
  assumes "wellFormed w"
  shows "wellFormed (snd (addCircle i la lo r c fc fo w))"
proof (cases "maps w i")
  case None
  then show ?thesis using wellFormed_alloc[OF assms] assms
    by (simp add: addCircle_def getMaps_def alloc_def addTo_def wellFormed_console)
next
  case (Some e)
  then show ?thesis using wellFormed_placed[OF assms Some] by (simp add: addCircle_entry[OF assms])
qed

lemma wellFormed_addMarker:
  assumes "wellFormed w"
  shows "wellFormed (snd (addMarker i la lo t p w))"
  using assms wellFormed_placeMarker[OF assms]
  by (simp add: addMarker_def wellFormed_console split: lookup.splits)

lemma wellFormed_addMarkers:
  assumes "wellFormed w"
  shows "wellFormed (snd (addMarkers i ms w))"
  using assms wellFormed_forEachMarker[OF assms]
  by (simp add: addMarkers_def wellFormed_console split: lookup.splits)

lemma removeLayer_detached: "removeLayer m h w = w\<lparr>heap := (heap w)(h := detached m (heap w h))\<rparr>"
  by (auto simp: removeLayer_def detached_def fun_upd_idem split: option.splits lobject.splits)

lemma detached_idem: "detached m (detached m obj) = detached m obj"
  by (auto simp: detached_def split: option.splits lobject.splits)

lemma fold_removeLayer:
  "fold (removeLayer m) ls w =
     w\<lparr>heap := (\<lambda>h. if h \<in> set ls then detached m (heap w h) else heap w h)\<rparr>"
proof (induction ls arbitrary: w)
  case Nil
  then show ?case by simp
next
  case (Cons a ls)
  let ?w1 = "removeLayer m a w"
  have h1: "heap ?w1 = (heap w)(a := detached m (heap w a))"
    by (simp add: removeLayer_detached)
  have "fold (removeLayer m) (a # ls) w = fold (removeLayer m) ls ?w1" by simp
  also have "\<dots> = ?w1\<lparr>heap := (\<lambda>h. if h \<in> set ls then detached m (heap ?w1 h) else heap ?w1 h)\<rparr>"
    by (rule Cons.IH)
  also have "(\<lambda>h. if h \<in> set ls then detached m (heap ?w1 h) else heap ?w1 h)
        = (\<lambda>h. if h \<in> set (a # ls) then detached m (heap w h) else heap w h)"
    unfolding h1 by (auto simp: fun_eq_iff detached_idem)
  also have "?w1\<lparr>heap := (\<lambda>h. if h \<in> set (a # ls) then detached m (heap w h) else heap w h)\<rparr>
        = w\<lparr>heap := (\<lambda>h. if h \<in> set (a # ls) then detached m (heap w h) else heap w h)\<rparr>"
    by (subst removeLayer_detached) simp
  finally show ?case .
qed

lemma clearMap_entry:
  assumes "maps w i = Some e"
  shows "clearMap i w =
           (Returned, w\<lparr>heap := (\<lambda>h. if h \<in> set (layers e) then detached (map_handle e) (heap w h)
                                      else heap w h),
                         maps := (maps w)(i \<mapsto> e\<lparr>layers := []\<rparr>)\<rparr>)"
  using assms by (simp add: clearMap_def getMaps_def fold_removeLayer)

lemma detached_None: "detached m obj = None \<longleftrightarrow> obj = None"
  by (auto simp: detached_def split: option.splits lobject.splits)

lemma detached_MapObj: "detached m (Some (MapObj mo)) = Some (MapObj mo)"
  by (simp add: detached_def)

lemma wellFormed_clearMap:
  assumes wf: "wellFormed w"
  shows "wellFormed (snd (clearMap i w))"
proof (cases "maps w i")
  case None
  then show ?thesis using wf
    by (simp add: clearMap_def getMaps_def wellFormed_console)
next
  case (Some e)
  let ?w' = "w\<lparr>heap := (\<lambda>h. if h \<in> set (layers e) then detached (map_handle e) (heap w h)
                                      else heap w h),
                         maps := (maps w)(i \<mapsto> e\<lparr>layers := []\<rparr>)\<rparr>"
  have "wellFormed ?w'"
  proof (rule wellFormedI)
    fix h assume "nextHandle ?w' \<le> h"
    then have "heap w h = None" using wf by (simp add: wellFormed_def)
    then show "heap ?w' h = None" by (simp add: detached_None)
  next
    fix j e' assume a: "maps ?w' j = Some e'"
    then have "\<exists>e''. maps w j = Some e'' \<and> map_handle e'' = map_handle e'"
      using Some by (cases "j = i") auto
    then obtain m where "heap w (map_handle e') = Some (MapObj m)"
      using wellFormed_map[OF wf] by metis
    then show "\<exists>m. heap ?w' (map_handle e') = Some (MapObj m)"
      by (simp add: detached_MapObj)
  next
    fix j e' h assume a: "maps ?w' j = Some e'" and h: "h \<in> set (layers e')"
    from a h have ji: "j \<noteq> i" by (cases "j = i") auto
    with a have e': "maps w j = Some e'" by simp
    from wellFormed_layer[OF wf e' h] obtain l where
      l: "heap w h = Some (LayerObj l)" "onMap l = Some (map_handle e')" "isOverlay (shape l)"
      by blast
    have "map_handle e' \<noteq> map_handle e" using wellFormed_inj[OF wf e' Some] ji by blast
    with l have "detached (map_handle e) (heap w h) = heap w h" by (simp add: detached_def)
    with l show "\<exists>l. heap ?w' h = Some (LayerObj l) \<and> onMap l = Some (map_handle e')
          \<and> isOverlay (shape l)" by simp
  next
    fix j k e1 e2
    assume a: "maps ?w' j = Some e1" "maps ?w' k = Some e2" "map_handle e1 = map_handle e2"
    have "\<exists>e1'. maps w j = Some e1' \<and> map_handle e1' = map_handle e1"
      using a(1) Some by (cases "j = i") auto
    moreover have "\<exists>e2'. maps w k = Some e2' \<and> map_handle e2' = map_handle e2"
      using a(2) Some by (cases "k = i") auto
    ultimately show "j = k" using wellFormed_inj[OF wf] a(3) by metis
  qed
  then show ?thesis by (simp add: clearMap_entry[OF Some])
qed

lemma fitBounds_entry:
  assumes "maps w i = Some e" "heap w (map_handle e) = Some (MapObj m)"
  shows "fitBounds i w =
           (Returned,
            if layers e = [] then w
            else w\<lparr>heap := (heap w)(map_handle e \<mapsto>
                     MapObj (m\<lparr>view := FittedTo (Pad (GroupBounds (layers e)) (1 / 10))\<rparr>))\<rparr>)"
  using assms by (simp add: fitBounds_def getMaps_def mapFitBounds_def)

lemma wellFormed_view:
  assumes wf: "wellFormed w" and m: "heap w mh = Some (MapObj m)"
  shows "wellFormed (w\<lparr>heap := (heap w)(mh \<mapsto> MapObj m')\<rparr>)"
proof (rule wellFormedI)
  fix h assume "nextHandle (w\<lparr>heap := (heap w)(mh \<mapsto> MapObj m')\<rparr>) \<le> h"
  then show "heap (w\<lparr>heap := (heap w)(mh \<mapsto> MapObj m')\<rparr>) h = None"
    using wf wellFormed_fresh[OF wf m] by (simp add: wellFormed_def)
next
  fix i e assume "maps (w\<lparr>heap := (heap w)(mh \<mapsto> MapObj m')\<rparr>) i = Some e"
  then show "\<exists>m. heap (w\<lparr>heap := (heap w)(mh \<mapsto> MapObj m')\<rparr>) (map_handle e) = Some (MapObj m)"
    using wellFormed_map[OF wf, of i e] by simp
next
  fix i e h assume "maps (w\<lparr>heap := (heap w)(mh \<mapsto> MapObj m')\<rparr>) i = Some e" "h \<in> set (layers e)"
  then show "\<exists>l. heap (w\<lparr>heap := (heap w)(mh \<mapsto> MapObj m')\<rparr>) h = Some (LayerObj l)
      \<and> onMap l = Some (map_handle e) \<and> isOverlay (shape l)"
    using wellFormed_layer[OF wf, of i e h] m by auto
next
  fix i j e e'
  assume "maps (w\<lparr>heap := (heap w)(mh \<mapsto> MapObj m')\<rparr>) i = Some e"
    "maps (w\<lparr>heap := (heap w)(mh \<mapsto> MapObj m')\<rparr>) j = Some e'" "map_handle e = map_handle e'"
  then show "i = j" using wellFormed_inj[OF wf, of i e j e'] by simp
qed

lemma wellFormed_fitBounds:
  assumes wf: "wellFormed w"
  shows "wellFormed (snd (fitBounds i w))"
proof (cases "maps w i")
  case None
  then show ?thesis using wf by (simp add: fitBounds_def getMaps_def wellFormed_console)
next
  case (Some e)
  from wellFormed_map[OF wf Some] obtain m where m: "heap w (map_handle e) = Some (MapObj m)"
    by blast
  show ?thesis using wf wellFormed_view[OF wf m] by (simp add: fitBounds_entry[OF Some m])
qed

lemma initializeAttempt_creates:
  assumes "getMaps w i = Undefined" "i \<in> dom_ids w"
  shows "initializeAttempt i la lo z w = (Returned, created i la lo z w)"
  using assms by (simp add: initializeAttempt_def alloc_def addTo_def created_def)

lemma initializeAttempt_existing:
  assumes "getMaps w i \<noteq> Undefined" "i \<in> dom_ids w"
  shows "initializeAttempt i la lo z w = (Returned, w)"
  using assms by (simp add: initializeAttempt_def split: lookup.splits)

lemma initializeAttempt_absent:
  assumes "i \<notin> dom_ids w"
  shows "initializeAttempt i la lo z w = (Returned, consoleError (SurfaceNotFound i) w)"
  using assms by (simp add: initializeAttempt_def)

lemma wellFormed_created:
  assumes wf: "wellFormed w" and none: "maps w i = None"
  shows "wellFormed (created i la lo z w)"
proof (rule wellFormedI)
  fix h assume "nextHandle (created i la lo z w) \<le> h"
  then show "heap (created i la lo z w) h = None"
    using wf by (simp add: created_def wellFormed_def)
next
  fix j e assume a: "maps (created i la lo z w) j = Some e"
  show "\<exists>m. heap (created i la lo z w) (map_handle e) = Some (MapObj m)"
  proof (cases "j = i")
    case True
    with a show ?thesis by (auto simp: created_def)
  next
    case False
    with a have e: "maps w j = Some e" by (simp add: created_def)
    from wellFormed_map[OF wf e] wellFormed_map_fresh[OF wf e] show ?thesis
      by (auto simp: created_def)
  qed
next
  fix j e h assume a: "maps (created i la lo z w) j = Some e" and h: "h \<in> set (layers e)"
  from a h have ji: "j \<noteq> i" by (cases "j = i") (auto simp: created_def)
  with a have e: "maps w j = Some e" by (simp add: created_def)
  from wellFormed_layer[OF wf e h] wellFormed_layer_fresh[OF wf e h]
  show "\<exists>l. heap (created i la lo z w) h = Some (LayerObj l) \<and> onMap l = Some (map_handle e)
          \<and> isOverlay (shape l)"
    by (auto simp: created_def)
next
  fix j k e1 e2
  assume a: "maps (created i la lo z w) j = Some e1" "maps (created i la lo z w) k = Some e2"
    "map_handle e1 = map_handle e2"
  have old: "map_handle e' \<noteq> nextHandle w" if "maps w x = Some e'" for x e'
    using wellFormed_map_fresh[OF wf that] by simp
  show "j = k"
  proof (cases "j = i")
    case ji: True
    show ?thesis
    proof (cases "k = i")
      case True
      with ji show ?thesis by simp
    next
      case False
      with a(2) have "maps w k = Some e2" by (simp add: created_def)
      from old[OF this] a(1) a(3) ji show ?thesis by (auto simp: created_def)
    qed
  next
    case ji: False
    with a(1) have e1: "maps w j = Some e1" by (simp add: created_def)
    show ?thesis
    proof (cases "k = i")
      case True
      with old[OF e1] a(2) a(3) show ?thesis by (auto simp: created_def)
    next
      case False
      with a(2) have "maps w k = Some e2" by (simp add: created_def)
      with e1 a(3) show ?thesis using wellFormed_inj[OF wf] by blast
    qed
  qed
qed

lemma wellFormed_initializeAttempt:
  assumes wf: "wellFormed w"
  shows "wellFormed (snd (initializeAttempt i la lo z w))"
proof (cases "i \<in> dom_ids w")
  case False
  then show ?thesis using wf by (simp add: initializeAttempt_absent wellFormed_console)
next
  case True
  show ?thesis
  proof (cases "getMaps w i = Undefined")
    case u: True
    from wellFormed_created[OF wf getMaps_Undefined[OF u]] show ?thesis
      by (simp add: initializeAttempt_creates[OF u True])
  next
    case False
    then show ?thesis using wf by (simp add: initializeAttempt_existing[OF False True])
  qed
qed

lemma wellFormed_timers: "wellFormed (w\<lparr>timers := ts\<rparr>) = wellFormed w"
  by (rule wellFormed_cong) simp_all

lemma wellFormed_dom_ids: "wellFormed (w\<lparr>dom_ids := d\<rparr>) = wellFormed w"
  by (rule wellFormed_cong) simp_all

lemma wellFormed_runTimer:
  assumes wf: "wellFormed w"
  shows "wellFormed (snd (runTimer w))"
proof (cases "timers w")
  case Nil
  then show ?thesis using wf by (simp add: runTimer_def)
next
  case (Cons t rest)
  obtain cb d where t: "t = (cb, d)" by (cases t)
  obtain i la lo z where cb: "cb = InitializeAttempt i la lo z" by (cases cb)
  have "wellFormed (w\<lparr>timers := rest\<rparr>)" using wf by (simp add: wellFormed_timers)
  from wellFormed_initializeAttempt[OF this] show ?thesis
    using Cons t cb by (simp add: runTimer_def)
qed

lemma wellFormed_step:
  assumes wf: "wellFormed w"
  shows "wellFormed (snd (step ev w))"
proof (cases ev)
  case (CallInitializeMap i la lo z)
  then show ?thesis using wf by (simp add: initializeMap_def wellFormed_timers)
next
  case (CallAddMarker i la lo t p)
  then show ?thesis using wellFormed_addMarker[OF wf] by simp
next
  case (CallAddMarkers i ms)
  then show ?thesis using wellFormed_addMarkers[OF wf] by simp
next
  case (CallAddCircle i la lo r c fc fo)
  then show ?thesis using wellFormed_addCircle[OF wf] by simp
next
  case (CallClearMap i)
  then show ?thesis using wellFormed_clearMap[OF wf] by simp
next
  case (CallFitBounds i)
  then show ?thesis using wellFormed_fitBounds[OF wf] by simp
next
  case TimerFires
  then show ?thesis using wellFormed_runTimer[OF wf] by simp
next
  case (Mounts i)
  then show ?thesis using wf by (simp add: wellFormed_dom_ids)
next
  case (Unmounts i)
  then show ?thesis using wf by (simp add: wellFormed_dom_ids)
qed

lemma wellFormed_run: "wellFormed w \<Longrightarrow> wellFormed (run evs w)"
  unfolding run_def by (induction evs arbitrary: w) (simp_all add: wellFormed_step)

lemma placeMarker_keeps:
  assumes "maps w j = Some e"
  shows "\<exists>e'. maps (snd (placeMarker i la lo t p w)) j = Some e' \<and> map_handle e' = map_handle e"
  using assms
  by (auto simp: placeMarker_def alloc_def addTo_def pushLayer_def bindPopup_def getMaps_def
      split: option.splits lobject.splits shape.splits)

lemma forEachMarker_keeps:
  "maps w j = Some e \<Longrightarrow>
   \<exists>e'. maps (snd (forEachMarker i ms w)) j = Some e' \<and> map_handle e' = map_handle e"
proof (induction ms arbitrary: w e)
  case Nil
  then show ?case by simp
next
  case (Cons md rest)
  let ?r = "placeMarker i (lat md) (lng md) (orElse (title md) (JString [])) (popup md) w"
  obtain r w1 where r: "?r = (r, w1)" by (cases ?r)
  from placeMarker_keeps[OF Cons.prems, of i "lat md" "lng md" "orElse (title md) (JString [])" "popup md"]
  obtain e1 where e1: "maps w1 j = Some e1" "map_handle e1 = map_handle e"
    unfolding r by auto
  show ?case
  proof (cases r)
    case Returned
    with r have "forEachMarker i (md # rest) w = forEachMarker i rest w1" by simp
    with Cons.IH[OF e1(1)] e1(2) show ?thesis by simp
  next
    case (Threw f)
    with r have "forEachMarker i (md # rest) w = (Threw f, w1)" by simp
    with e1 show ?thesis by simp
  qed
qed

lemma addCircle_keeps:
  assumes "maps w j = Some e"
  shows "\<exists>e'. maps (snd (addCircle i la lo r c fc fo w)) j = Some e' \<and> map_handle e' = map_handle e"
  using assms
  by (auto simp: addCircle_def alloc_def addTo_def pushLayer_def getMaps_def consoleError_def
      split: option.splits lobject.splits)

lemma clearMap_keeps:
  assumes "maps w j = Some e"
  shows "\<exists>e'. maps (snd (clearMap i w)) j = Some e' \<and> map_handle e' = map_handle e"
  using assms
  by (auto simp: clearMap_def getMaps_def consoleError_def fold_removeLayer split: option.splits)

lemma fitBounds_keeps:
  assumes "maps w j = Some e"
  shows "maps (snd (fitBounds i w)) j = Some e"
  using assms
  by (auto simp: fitBounds_def getMaps_def consoleError_def mapFitBounds_def
      split: option.splits lobject.splits)

lemma initializeAttempt_keeps:
  assumes "maps w j = Some e"
  shows "maps (snd (initializeAttempt i la lo z w)) j = Some e"
proof (cases "i \<in> dom_ids w")
  case False
  then show ?thesis using assms by (simp add: initializeAttempt_absent consoleError_def)
next
  case True
  show ?thesis
  proof (cases "getMaps w i = Undefined")
    case u: True
    from getMaps_Undefined[OF u] assms have "j \<noteq> i" by auto
    then show ?thesis using assms by (simp add: initializeAttempt_creates[OF u True] created_def)
  next
    case False
    then show ?thesis using assms by (simp add: initializeAttempt_existing[OF False True])
  qed
qed

lemma runTimer_keeps:
  assumes "maps w j = Some e"
  shows "maps (snd (runTimer w)) j = Some e"
proof (cases "timers w")
  case Nil
  then show ?thesis using assms by (simp add: runTimer_def)
next
  case (Cons t rest)
  obtain cb d where t: "t = (cb, d)" by (cases t)
  obtain i la lo z where cb: "cb = InitializeAttempt i la lo z" by (cases cb)
  have "maps (w\<lparr>timers := rest\<rparr>) j = Some e" using assms by simp
  from initializeAttempt_keeps[OF this] show ?thesis
    using Cons t cb by (simp add: runTimer_def)
qed

lemma step_keeps:
  assumes e: "maps w j = Some e"
  shows "\<exists>e'. maps (snd (step ev w)) j = Some e' \<and> map_handle e' = map_handle e"
proof (cases ev)
  case (CallInitializeMap i la lo z)
  then show ?thesis using e by (simp add: initializeMap_def)
next
  case (CallAddMarker i la lo t p)
  then show ?thesis using e placeMarker_keeps[OF e]
    by (simp add: addMarker_def consoleError_def split: lookup.splits)
next
  case (CallAddMarkers i ms)
  then show ?thesis using e forEachMarker_keeps[OF e]
    by (simp add: addMarkers_def consoleError_def split: lookup.splits)
next
  case (CallAddCircle i la lo r c fc fo)
  then show ?thesis using addCircle_keeps[OF e] by simp
next
  case (CallClearMap i)
  then show ?thesis using clearMap_keeps[OF e] by simp
next
  case (CallFitBounds i)
  then show ?thesis using fitBounds_keeps[OF e] by simp
next
  case TimerFires
  then show ?thesis using runTimer_keeps[OF e] by simp
next
  case (Mounts i)
  then show ?thesis using e by simp
next
  case (Unmounts i)
  then show ?thesis using e by simp
qed

subsection \<open>Calls on a map that was never initialized\<close>

text \<open>
  Claim C1: for every map identifier with no entry in the registry, addMarker, addMarkers,
  addCircle, clearMap and fitBounds report that the map is not initialized, leave the registry
  unchanged and raise no fault. The module tests \<^verbatim>\<open>!maps[mapId]\<close> on an object literal,
  so an identifier that names a property of \<^verbatim>\<open>Object.prototype\<close> passes the test without
  having an entry: \<^verbatim>\<open>clearMap("constructor")\<close> on the empty registry reports nothing and
  faults on \<^verbatim>\<open>mapData.layers.forEach\<close>.
\<close>

theorem clearMap_inherited_key_faults:
  "maps initialWorld ''constructor'' = None \<and>
   clearMap ''constructor'' initialWorld = (Threw TypeError, initialWorld)"
  by (simp add: clearMap_def getMaps_def initialWorld_def objectPrototypeKeys_def)

text \<open>For every other identifier without an entry the five functions do report and return.\<close>

lemma uninitialized_reports:
  assumes "getMaps w i = Undefined"
  shows "addMarker i la lo t p w = (Returned, consoleError (MapNotInitialized i) w)"
    and "addMarkers i ms w = (Returned, consoleError (MapNotInitialized i) w)"
    and "addCircle i la lo r c fc fo w = (Returned, consoleError (MapNotInitialized i) w)"
    and "clearMap i w = (Returned, consoleError (MapNotInitialized i) w)"
    and "fitBounds i w = (Returned, consoleError (MapNotInitialized i) w)"
  using assms by (simp_all add: addMarker_def addMarkers_def addCircle_def clearMap_def fitBounds_def)

subsection \<open>Initializing twice\<close>



subsection \<open>Clearing a map\<close>

text \<open>
  Claim C3: for every identifier with an entry, clearMap takes every layer of the entry's list
  off the map, leaves the list empty, and leaves the map object (centre, zoom) and its tile
  layer as they were.
\<close>

theorem clearMap_detaches_layers:
  assumes "wellFormed w" and "maps w mapId = Some e"
  shows "\<exists>w'. clearMap mapId w = (Returned, w')
           \<and> maps w' = (maps w)(mapId \<mapsto> e\<lparr>layers := []\<rparr>)
           \<and> (\<forall>h\<in>set (layers e). \<exists>l. heap w' h = Some (LayerObj l) \<and> onMap l = None)
           \<and> heap w' (map_handle e) = heap w (map_handle e)
           \<and> (\<forall>t. t \<notin> set (layers e) \<longrightarrow> heap w' t = heap w t)
           \<and> (\<forall>t l. heap w t = Some (LayerObj l) \<longrightarrow> \<not> isOverlay (shape l) \<longrightarrow> heap w' t = heap w t)"
proof -
  let ?w' = "w\<lparr>heap := (\<lambda>h. if h \<in> set (layers e) then detached (map_handle e) (heap w h)
                               else heap w h),
                 maps := (maps w)(mapId \<mapsto> e\<lparr>layers := []\<rparr>)\<rparr>"
  have run: "clearMap mapId w = (Returned, ?w')" by (rule clearMap_entry[OF assms(2)])
  have gone: "\<exists>l. heap ?w' h = Some (LayerObj l) \<and> onMap l = None" if "h \<in> set (layers e)" for h
    using wellFormed_layer[OF assms that] that by (auto simp: detached_def)
  from wellFormed_map[OF assms] obtain m where "heap w (map_handle e) = Some (MapObj m)" by blast
  then have mapobj: "heap ?w' (map_handle e) = heap w (map_handle e)"
    by (simp add: detached_def)
  have tiles: "heap ?w' t = heap w t" if "heap w t = Some (LayerObj l)" "\<not> isOverlay (shape l)" for t l
    using wellFormed_layer[OF assms, of t] that by auto
  show ?thesis using run gone mapobj tiles by auto
qed

lemma circleScenario_maps: "maps circleScenario ''m1'' = Some \<lparr>map_handle = 0, layers = [2]\<rparr>"
  by (simp add: circleScenario_def exec_defs)

lemma circleScenario_heap:
  "heap circleScenario 0 = Some (MapObj \<lparr>container = ''m1'', view = SetView 51.5 (- 0.1) 13\<rparr>)"
  "heap circleScenario 1 = Some (LayerObj \<lparr>shape = TileLayer tileUrl tileAttribution 18, onMap = Some 0\<rparr>)"
  "heap circleScenario 2 = Some (LayerObj \<lparr>shape = Circle 51.5 (- 0.1) 500 ''red'' ''red'' 0.3, onMap = Some 0\<rparr>)"
  "nextHandle circleScenario = 3"
  by (simp_all add: circleScenario_def exec_defs)

lemma circleScenario_wellFormed: "wellFormed circleScenario"
  unfolding circleScenario_def by (rule wellFormed_run[OF wellFormed_initial])

theorem clearMap_detaches_layers_witness:
  "wellFormed circleScenario \<and> maps circleScenario ''m1'' = Some \<lparr>map_handle = 0, layers = [2]\<rparr>
   \<and> fst (clearMap ''m1'' circleScenario) = Returned
   \<and> maps (snd (clearMap ''m1'' circleScenario)) ''m1'' = Some \<lparr>map_handle = 0, layers = []\<rparr>
   \<and> (\<exists>l. heap (snd (clearMap ''m1'' circleScenario)) 2 = Some (LayerObj l) \<and> onMap l = None)
   \<and> heap (snd (clearMap ''m1'' circleScenario)) 0
       = Some (MapObj \<lparr>container = ''m1'', view = SetView 51.5 (- 0.1) 13\<rparr>)
   \<and> heap (snd (clearMap ''m1'' circleScenario)) 1
       = Some (LayerObj \<lparr>shape = TileLayer tileUrl tileAttribution 18, onMap = Some 0\<rparr>)"
  using clearMap_detaches_layers[OF circleScenario_wellFormed circleScenario_maps]
    circleScenario_wellFormed circleScenario_maps circleScenario_heap
  by auto

lemma emptyMapScenario_maps: "maps emptyMapScenario ''m1'' = Some \<lparr>map_handle = 0, layers = []\<rparr>"
  by (simp add: emptyMapScenario_def exec_defs)

lemma emptyMapScenario_heap:
  "heap emptyMapScenario 0 = Some (MapObj \<lparr>container = ''m1'', view = SetView 10 20 5\<rparr>)"
  "nextHandle emptyMapScenario = 2"
  by (simp_all add: emptyMapScenario_def exec_defs)

lemma emptyMapScenario_wellFormed: "wellFormed emptyMapScenario"
  unfolding emptyMapScenario_def by (rule wellFormed_run[OF wellFormed_initial])

subsection \<open>Adding markers\<close>

text \<open>
  Claim C4: for every identifier with an entry and every sequence of N marker records,
  addMarkers appends exactly N new handles to the entry's list, one for each record and in
  the order of the records, after the handles that were there.
\<close>

theorem addMarkers_appends_in_order:
  assumes "wellFormed w" and "maps w mapId = Some e"
  shows "\<exists>w'. addMarkers mapId markers w = (Returned, w')
           \<and> maps w' mapId = Some (e\<lparr>layers := layers e @ [nextHandle w..<nextHandle w + length markers]\<rparr>)
           \<and> (\<forall>k<length markers.
                 heap w (nextHandle w + k) = None \<and>
                 heap w' (nextHandle w + k) =
                   Some (LayerObj \<lparr>shape = Marker (lat (markers ! k)) (lng (markers ! k))
                                              (orElse (title (markers ! k)) (JString []))
                                              (if truthy (popup (markers ! k))
                                               then Some (popup (markers ! k)) else None),
                                    onMap = Some (map_handle e)\<rparr>))
           \<and> (\<forall>h<nextHandle w. heap w' h = heap w h)"
proof -
  from forEachMarker_entry[OF assms, of markers] obtain w' where
    run: "forEachMarker mapId markers w = (Returned, w')"
    and m: "maps w' = (maps w)(mapId \<mapsto> e\<lparr>layers := layers e @ [nextHandle w..<nextHandle w + length markers]\<rparr>)"
    and old: "\<forall>h<nextHandle w. heap w' h = heap w h"
    and new: "\<forall>k<length markers. heap w' (nextHandle w + k) =
           Some (LayerObj \<lparr>shape = markerShape (markers ! k), onMap = Some (map_handle e)\<rparr>)"
    by blast
  have "addMarkers mapId markers w = (Returned, w')"
    using run assms(2) by (simp add: addMarkers_def getMaps_def)
  moreover have "heap w (nextHandle w + k) = None" for k
    using assms(1) by (simp add: wellFormed_def)
  ultimately show ?thesis using m old new by (auto simp: markerShape_def)
qed

theorem addMarkers_appends_in_order_witness:
  "wellFormed emptyMapScenario \<and> maps emptyMapScenario ''m1'' = Some \<lparr>map_handle = 0, layers = []\<rparr>
   \<and> (let ms = [\<lparr>lat = 1, lng = 1, title = JUndefined, popup = JUndefined\<rparr>,
                 \<lparr>lat = 2, lng = 2, title = JUndefined, popup = JUndefined\<rparr>];
           w' = snd (addMarkers ''m1'' ms emptyMapScenario)
       in fst (addMarkers ''m1'' ms emptyMapScenario) = Returned
        \<and> maps w' ''m1'' = Some \<lparr>map_handle = 0, layers = [2, 3]\<rparr>
        \<and> heap w' 2 = Some (LayerObj \<lparr>shape = Marker 1 1 (JString []) None, onMap = Some 0\<rparr>)
        \<and> heap w' 3 = Some (LayerObj \<lparr>shape = Marker 2 2 (JString []) None, onMap = Some 0\<rparr>))"
proof -
  let ?ms = "[\<lparr>lat = 1, lng = 1, title = JUndefined, popup = JUndefined\<rparr>,
              \<lparr>lat = 2, lng = 2, title = JUndefined, popup = JUndefined\<rparr>]"
  have upt: "[2..<2 + length ?ms] = [2, 3]" by (simp add: upt_conv_Cons)
  from addMarkers_appends_in_order[OF emptyMapScenario_wellFormed emptyMapScenario_maps, of ?ms]
  obtain w' where r: "addMarkers ''m1'' ?ms emptyMapScenario = (Returned, w')"
    and m: "maps w' ''m1'' = Some \<lparr>map_handle = 0, layers = [2, 3]\<rparr>"
    and h: "\<forall>k<length ?ms. heap w' (2 + k) =
                   Some (LayerObj \<lparr>shape = Marker (lat (?ms ! k)) (lng (?ms ! k))
                                              (orElse (title (?ms ! k)) (JString []))
                                              (if truthy (popup (?ms ! k))
                                               then Some (popup (?ms ! k)) else None),
                                    onMap = Some 0\<rparr>)"
    unfolding emptyMapScenario_heap upt by auto
  from h[rule_format, of 0] have "heap w' (2 + 0) = Some (LayerObj \<lparr>shape = Marker 1 1 (JString []) None, onMap = Some 0\<rparr>)"
    by (simp add: orElse_def)
  moreover from h[rule_format, of 1] have "heap w' (2 + 1) = Some (LayerObj \<lparr>shape = Marker 2 2 (JString []) None, onMap = Some 0\<rparr>)"
    by (simp add: orElse_def)
  ultimately show ?thesis
    using r m emptyMapScenario_wellFormed emptyMapScenario_maps by (simp add: Let_def)
qed

text \<open>
  Claim C9: for every identifier with an entry, addMarker binds a popup to the marker it
  creates exactly when popupContent is truthy; the empty string, null and undefined are not,
  and the marker is appended to the entry's list in either case.
\<close>

theorem addMarker_binds_popup_iff_truthy:
  assumes "wellFormed w" and "maps w mapId = Some e"
  shows "\<exists>w' l. addMarker mapId latitude longitude ttl popupContent w = (Returned, w')
           \<and> maps w' mapId = Some (e\<lparr>layers := layers e @ [nextHandle w]\<rparr>)
           \<and> heap w' (nextHandle w) = Some (LayerObj l)
           \<and> onMap l = Some (map_handle e)
           \<and> shape l = Marker latitude longitude ttl (if truthy popupContent then Some popupContent else None)
           \<and> (popupOf (shape l) \<noteq> None \<longleftrightarrow> truthy popupContent)
           \<and> \<not> truthy (JString []) \<and> \<not> truthy JNull \<and> \<not> truthy JUndefined"
proof -
  have "addMarker mapId latitude longitude ttl popupContent w =
          (Returned, placed mapId e (Marker latitude longitude ttl
             (if truthy popupContent then Some popupContent else None)) w)"
    using placeMarker_entry[OF assms] assms(2) by (simp add: addMarker_def getMaps_def)
  then show ?thesis by (simp add: placed_def)
qed

theorem addMarker_binds_popup_iff_truthy_witness:
  "wellFormed emptyMapScenario \<and> maps emptyMapScenario ''m1'' = Some \<lparr>map_handle = 0, layers = []\<rparr>
   \<and> maps (snd (addMarker ''m1'' 1 2 (JString ''t'') (JString []) emptyMapScenario)) ''m1''
       = Some \<lparr>map_handle = 0, layers = [2]\<rparr>
   \<and> heap (snd (addMarker ''m1'' 1 2 (JString ''t'') (JString []) emptyMapScenario)) 2
       = Some (LayerObj \<lparr>shape = Marker 1 2 (JString ''t'') None, onMap = Some 0\<rparr>)
   \<and> heap (snd (addMarker ''m1'' 1 2 (JString ''t'') (JString ''p'') emptyMapScenario)) 2
       = Some (LayerObj \<lparr>shape = Marker 1 2 (JString ''t'') (Some (JString ''p'')), onMap = Some 0\<rparr>)"
  using addMarker_binds_popup_iff_truthy[OF emptyMapScenario_wellFormed emptyMapScenario_maps,
      of 1 2 "JString ''t''" "JString []"]
    addMarker_binds_popup_iff_truthy[OF emptyMapScenario_wellFormed emptyMapScenario_maps,
      of 1 2 "JString ''t''" "JString ''p''"]
    emptyMapScenario_wellFormed emptyMapScenario_maps emptyMapScenario_heap
  by auto

subsection \<open>Fitting the view\<close>

text \<open>
  Claim C5: for every identifier with an entry, fitBounds asks the map to fit the bounds of
  all the layers of the entry's list, padded by the ratio 0.1, when the list is not empty, and
  changes nothing when it is empty; in neither case does it change the registry or the list.
\<close>

theorem fitBounds_fits_padded_bounds:
  assumes "wellFormed w" and "maps w mapId = Some e"
  shows "\<exists>w' m. fitBounds mapId w = (Returned, w')
           \<and> maps w' = maps w
           \<and> heap w (map_handle e) = Some (MapObj m)
           \<and> (layers e = [] \<longrightarrow> w' = w)
           \<and> (layers e \<noteq> [] \<longrightarrow>
                heap w' = (heap w)(map_handle e \<mapsto>
                  MapObj (m\<lparr>view := FittedTo (Pad (GroupBounds (layers e)) (1 / 10))\<rparr>)))"
proof -
  from wellFormed_map[OF assms] obtain m where m: "heap w (map_handle e) = Some (MapObj m)"
    by blast
  show ?thesis using fitBounds_entry[OF assms(2) m] m by auto
qed

theorem fitBounds_fits_padded_bounds_witness:
  "wellFormed circleScenario \<and> maps circleScenario ''m1'' = Some \<lparr>map_handle = 0, layers = [2]\<rparr>
   \<and> maps (snd (fitBounds ''m1'' circleScenario)) = maps circleScenario
   \<and> heap (snd (fitBounds ''m1'' circleScenario)) 0
       = Some (MapObj \<lparr>container = ''m1'', view = FittedTo (Pad (GroupBounds [2]) (1 / 10))\<rparr>)
   \<and> wellFormed emptyMapScenario \<and> maps emptyMapScenario ''m1'' = Some \<lparr>map_handle = 0, layers = []\<rparr>
   \<and> snd (fitBounds ''m1'' emptyMapScenario) = emptyMapScenario"
  using fitBounds_fits_padded_bounds[OF circleScenario_wellFormed circleScenario_maps]
    fitBounds_fits_padded_bounds[OF emptyMapScenario_wellFormed emptyMapScenario_maps]
    circleScenario_wellFormed circleScenario_maps circleScenario_heap
    emptyMapScenario_wellFormed emptyMapScenario_maps
  by auto

subsection \<open>The deferred body of initializeMap\<close>

text \<open>
  Claim C6: when the deferred body of initialize runs and the element with the identifier is
  not on the page, it reports that the element was not found and changes nothing else: no map
  object is made and no entry is stored.
\<close>

theorem absent_surface_reports_and_keeps:
  assumes "timers w = (InitializeAttempt mapId latitude longitude zoom, d) # rest"
    and "mapId \<notin> dom_ids w"
  shows "runTimer w = (Returned, w\<lparr>timers := rest, console := console w @ [SurfaceNotFound mapId]\<rparr>)
       \<and> maps (snd (runTimer w)) = maps w \<and> heap (snd (runTimer w)) = heap w
       \<and> nextHandle (snd (runTimer w)) = nextHandle w"
  using assms by (simp add: runTimer_def initializeAttempt_def consoleError_def)

theorem absent_surface_reports_and_keeps_witness:
  "timers (snd (initializeMap ''m1'' 10 20 5 initialWorld)) = (InitializeAttempt ''m1'' 10 20 5, 100) # []
   \<and> ''m1'' \<notin> dom_ids (snd (initializeMap ''m1'' 10 20 5 initialWorld))
   \<and> console (snd (runTimer (snd (initializeMap ''m1'' 10 20 5 initialWorld)))) = [SurfaceNotFound ''m1'']
   \<and> maps (snd (runTimer (snd (initializeMap ''m1'' 10 20 5 initialWorld)))) ''m1'' = None
   \<and> nextHandle (snd (runTimer (snd (initializeMap ''m1'' 10 20 5 initialWorld)))) = 0"
proof -
  let ?w = "snd (initializeMap ''m1'' 10 20 5 initialWorld)"
  have t: "timers ?w = (InitializeAttempt ''m1'' 10 20 5, 100) # []"
    by (simp add: initializeMap_def initialWorld_def)
  have a: "''m1'' \<notin> dom_ids ?w" by (simp add: initializeMap_def initialWorld_def)
  have s: "maps ?w ''m1'' = None" "nextHandle ?w = 0" "console ?w = []"
    by (simp_all add: initializeMap_def initialWorld_def)
  from absent_surface_reports_and_keeps[OF t a] s t a show ?thesis by simp
qed

text \<open>
  Claim C8, as the specification has it: initialize defers only when the element is not yet
  there, and when the identifier has no entry and the element exists at the time of the call
  it makes the map and stores the entry within the call. The module always defers: the call
  only sets a timer of 100 ms, and the entry is still missing when the call returns.
\<close>

theorem initializeMap_stores_nothing_in_the_call:
  "getMaps (run [Mounts ''m1''] initialWorld) ''m1'' = Undefined
   \<and> ''m1'' \<in> dom_ids (run [Mounts ''m1''] initialWorld)
   \<and> fst (initializeMap ''m1'' 51.5 (- 0.1) 13 (run [Mounts ''m1''] initialWorld)) = Returned
   \<and> maps (snd (initializeMap ''m1'' 51.5 (- 0.1) 13 (run [Mounts ''m1''] initialWorld))) ''m1'' = None
   \<and> heap (snd (initializeMap ''m1'' 51.5 (- 0.1) 13 (run [Mounts ''m1''] initialWorld))) 0 = None
   \<and> timers (snd (initializeMap ''m1'' 51.5 (- 0.1) 13 (run [Mounts ''m1''] initialWorld)))
       = [(InitializeAttempt ''m1'' 51.5 (- 0.1) 13, 100)]"
  by (simp add: exec_defs)

text \<open>
  Claim C8, amended: initialize always defers. In every world, whether or not the element
  exists and whatever timers are pending, the call returns after adding one timer of 100 ms
  to the queue and leaves the registry, the objects of the library, the page and the console
  as they were. When that timer fires, whatever timers follow it, and at that moment
  \<^verbatim>\<open>maps[mapId]\<close> is undefined and the element exists, the deferred body makes the map with
  the given centre and zoom, puts the tile layer on it and stores the entry with an empty
  list of layers, and changes nothing else.
\<close>

theorem initializeMap_always_defers:
  "initializeMap mapId latitude longitude zoom w
     = (Returned, w\<lparr>timers := timers w @ [(InitializeAttempt mapId latitude longitude zoom, 100)]\<rparr>)
   \<and> (timers w' = (InitializeAttempt mapId latitude longitude zoom, d) # rest \<longrightarrow>
      getMaps w' mapId = Undefined \<longrightarrow> mapId \<in> dom_ids w' \<longrightarrow>
        runTimer w' =
          (Returned,
           w'\<lparr>timers := rest,
              heap := (heap w')
                (nextHandle w' \<mapsto> MapObj \<lparr>container = mapId, view = SetView latitude longitude zoom\<rparr>,
                 Suc (nextHandle w') \<mapsto>
                   LayerObj \<lparr>shape = TileLayer tileUrl tileAttribution 18, onMap = Some (nextHandle w')\<rparr>),
              nextHandle := Suc (Suc (nextHandle w')),
              maps := (maps w')(mapId \<mapsto> \<lparr>map_handle = nextHandle w', layers = []\<rparr>)\<rparr>))"
proof (intro conjI impI)
  show "initializeMap mapId latitude longitude zoom w
     = (Returned, w\<lparr>timers := timers w @ [(InitializeAttempt mapId latitude longitude zoom, 100)]\<rparr>)"
    by (simp add: initializeMap_def)
next
  assume t: "timers w' = (InitializeAttempt mapId latitude longitude zoom, d) # rest"
    and u: "getMaps w' mapId = Undefined" and el: "mapId \<in> dom_ids w'"
  have u': "getMaps (w'\<lparr>timers := rest\<rparr>) mapId = Undefined"
    using u by (simp add: getMaps_def)
  have el': "mapId \<in> dom_ids (w'\<lparr>timers := rest\<rparr>)" using el by simp
  have "runTimer w' = (Returned, created mapId latitude longitude zoom (w'\<lparr>timers := rest\<rparr>))"
    using t initializeAttempt_creates[OF u' el', of latitude longitude zoom]
    by (simp add: runTimer_def)
  then show "runTimer w' =
          (Returned,
           w'\<lparr>timers := rest,
              heap := (heap w')
                (nextHandle w' \<mapsto> MapObj \<lparr>container = mapId, view = SetView latitude longitude zoom\<rparr>,
                 Suc (nextHandle w') \<mapsto>
                   LayerObj \<lparr>shape = TileLayer tileUrl tileAttribution 18, onMap = Some (nextHandle w')\<rparr>),
              nextHandle := Suc (Suc (nextHandle w')),
              maps := (maps w')(mapId \<mapsto> \<lparr>map_handle = nextHandle w', layers = []\<rparr>)\<rparr>)"
    by (simp add: created_def)
qed

text \<open>
  An instance: the call is made while the element is not yet on the page, a second timer
  waits behind the first, and the element is mounted before the first timer fires.
\<close>

theorem initializeMap_always_defers_witness:
  "''m1'' \<notin> dom_ids initialWorld
   \<and> maps (snd (initializeMap ''m1'' 51.5 (- 0.1) 13 initialWorld)) ''m1'' = None
   \<and> timers (snd (initializeMap ''m1'' 51.5 (- 0.1) 13 initialWorld))
       = [(InitializeAttempt ''m1'' 51.5 (- 0.1) 13, 100)]
   \<and> (let w' = run [CallInitializeMap ''m1'' 51.5 (- 0.1) 13, CallInitializeMap ''m2'' 1 2 3,
                     Mounts ''m1''] initialWorld
      in timers w' = (InitializeAttempt ''m1'' 51.5 (- 0.1) 13, 100) # [(InitializeAttempt ''m2'' 1 2 3, 100)]
       \<and> getMaps w' ''m1'' = Undefined \<and> ''m1'' \<in> dom_ids w'
       \<and> fst (runTimer w') = Returned
       \<and> maps (snd (runTimer w')) ''m1'' = Some \<lparr>map_handle = 0, layers = []\<rparr>
       \<and> heap (snd (runTimer w')) 0 = Some (MapObj \<lparr>container = ''m1'', view = SetView 51.5 (- 0.1) 13\<rparr>)
       \<and> heap (snd (runTimer w')) 1
           = Some (LayerObj \<lparr>shape = TileLayer tileUrl tileAttribution 18, onMap = Some 0\<rparr>)
       \<and> timers (snd (runTimer w')) = [(InitializeAttempt ''m2'' 1 2 3, 100)])"
proof -
  let ?w' = "run [CallInitializeMap ''m1'' 51.5 (- 0.1) 13, CallInitializeMap ''m2'' 1 2 3,
                  Mounts ''m1''] initialWorld"
  have a: "''m1'' \<notin> dom_ids initialWorld" by (simp add: initialWorld_def)
  have t: "timers ?w' = (InitializeAttempt ''m1'' 51.5 (- 0.1) 13, 100) # [(InitializeAttempt ''m2'' 1 2 3, 100)]"
    by (simp add: run_def initializeMap_def initialWorld_def)
  have u: "getMaps ?w' ''m1'' = Undefined"
    by (simp add: run_def initializeMap_def initialWorld_def getMaps_def objectPrototypeKeys_def)
  have el: "''m1'' \<in> dom_ids ?w'" by (simp add: run_def initializeMap_def initialWorld_def)
  have n: "nextHandle ?w' = 0" by (simp add: run_def initializeMap_def initialWorld_def)
  note defers = initializeMap_always_defers[of "''m1''" "51.5" "- 0.1" "13" initialWorld ?w' 100
      "[(InitializeAttempt ''m2'' 1 2 3, 100)]"]
  from defers have call: "initializeMap ''m1'' 51.5 (- 0.1) 13 initialWorld
     = (Returned, initialWorld\<lparr>timers := timers initialWorld @ [(InitializeAttempt ''m1'' 51.5 (- 0.1) 13, 100)]\<rparr>)"
    by blast
  from defers t u el have fire: "runTimer ?w' =
          (Returned,
           ?w'\<lparr>timers := [(InitializeAttempt ''m2'' 1 2 3, 100)],
              heap := (heap ?w')
                (nextHandle ?w' \<mapsto> MapObj \<lparr>container = ''m1'', view = SetView 51.5 (- 0.1) 13\<rparr>,
                 Suc (nextHandle ?w') \<mapsto>
                   LayerObj \<lparr>shape = TileLayer tileUrl tileAttribution 18, onMap = Some (nextHandle ?w')\<rparr>),
              nextHandle := Suc (Suc (nextHandle ?w')),
              maps := (maps ?w')(''m1'' \<mapsto> \<lparr>map_handle = nextHandle ?w', layers = []\<rparr>)\<rparr>)"
    by blast
  have c1: "maps (snd (initializeMap ''m1'' 51.5 (- 0.1) 13 initialWorld)) ''m1'' = None"
    unfolding call by (simp add: initialWorld_def)
  have c2: "timers (snd (initializeMap ''m1'' 51.5 (- 0.1) 13 initialWorld))
       = [(InitializeAttempt ''m1'' 51.5 (- 0.1) 13, 100)]"
    unfolding call by (simp add: initialWorld_def)
  have c3: "fst (runTimer ?w') = Returned" unfolding fire by simp
  have c4: "maps (snd (runTimer ?w')) ''m1'' = Some \<lparr>map_handle = 0, layers = []\<rparr>"
    unfolding fire n by simp
  have c5: "heap (snd (runTimer ?w')) 0 = Some (MapObj \<lparr>container = ''m1'', view = SetView 51.5 (- 0.1) 13\<rparr>)"
    unfolding fire n by simp
  have c6: "heap (snd (runTimer ?w')) 1
           = Some (LayerObj \<lparr>shape = TileLayer tileUrl tileAttribution 18, onMap = Some 0\<rparr>)"
    unfolding fire n by simp
  have c7: "timers (snd (runTimer ?w')) = [(InitializeAttempt ''m2'' 1 2 3, 100)]"
    unfolding fire by simp
  show ?thesis unfolding Let_def using a t u el c1 c2 c3 c4 c5 c6 c7 by blast
qed

subsection \<open>Invariants of the registry\<close>

lemma wellFormed_layersOwned:
  assumes "wellFormed w"
  shows "layersOwned w"
  unfolding layersOwned_def
proof (intro allI impI conjI)
  fix i e h assume e: "maps w i = Some e" and h: "h \<in> set (layers e)"
  from wellFormed_layer[OF assms e h]
  show "\<exists>l. heap w h = Some (LayerObj l) \<and> isOverlay (shape l) \<and> onMap l = Some (map_handle e)"
    by blast
next
  fix i e h j e'
  assume "maps w i = Some e" "maps w j = Some e'" "j \<noteq> i"
  then show "map_handle e' \<noteq> map_handle e" using wellFormed_inj[OF assms] by blast
qed

text \<open>
  Claim C7: after any run of the module (calls of the exported functions, timers firing, the
  host mounting and unmounting elements), every layer handle in the list of an entry is a
  marker or circle that was put on the map of that same entry, and no other entry has that
  map. The invariant \<open>wellFormed\<close> that carries the proof holds at the start and is kept by
  every step (\<open>wellFormed_initial\<close>, \<open>wellFormed_step\<close>).
\<close>

theorem layers_stay_on_their_own_map: "layersOwned (run evs initialWorld)"
  by (rule wellFormed_layersOwned[OF wellFormed_run[OF wellFormed_initial]])

theorem layers_stay_on_their_own_map_witness:
  "maps twoMapsScenario ''m1'' = Some \<lparr>map_handle = 0, layers = [5]\<rparr>
   \<and> maps twoMapsScenario ''m2'' = Some \<lparr>map_handle = 2, layers = [4]\<rparr>
   \<and> (\<exists>l. heap twoMapsScenario 5 = Some (LayerObj l) \<and> isOverlay (shape l) \<and> onMap l = Some 0)
   \<and> (\<exists>l. heap twoMapsScenario 4 = Some (LayerObj l) \<and> isOverlay (shape l) \<and> onMap l = Some 2)"
proof -
  have m1: "maps twoMapsScenario ''m1'' = Some \<lparr>map_handle = 0, layers = [5]\<rparr>"
    by (simp add: twoMapsScenario_def exec_defs)
  have m2: "maps twoMapsScenario ''m2'' = Some \<lparr>map_handle = 2, layers = [4]\<rparr>"
    by (simp add: twoMapsScenario_def exec_defs)
  have "layersOwned twoMapsScenario"
    unfolding twoMapsScenario_def by (rule layers_stay_on_their_own_map)
  then show ?thesis using m1 m2 unfolding layersOwned_def by fastforce
qed

text \<open>
  Claim C10: no step removes or replaces an entry. Once an identifier has an entry, it has one
  with the same map handle after any call of an exported function, any timer firing and any
  change of the page; and a repeated initialize of that identifier, with the element on the
  page or not, leaves the entry (map handle and layers) and the objects of the library as
  they were.
\<close>

theorem entries_are_never_removed:
  assumes "maps w mapId = Some e"
  shows "(\<exists>e'. maps (snd (step ev w)) mapId = Some e' \<and> map_handle e' = map_handle e)
       \<and> maps (snd (initializeMap mapId latitude longitude zoom w)) mapId = Some e
       \<and> heap (snd (initializeMap mapId latitude longitude zoom w)) = heap w
       \<and> maps (snd (initializeAttempt mapId latitude longitude zoom w)) mapId = Some e
       \<and> heap (snd (initializeAttempt mapId latitude longitude zoom w)) = heap w"
proof -
  have g: "getMaps w mapId \<noteq> Undefined" using assms by (simp add: getMaps_def)
  have "heap (snd (initializeAttempt mapId latitude longitude zoom w)) = heap w"
  proof (cases "mapId \<in> dom_ids w")
    case True
    from initializeAttempt_existing[OF g True] show ?thesis by simp
  next
    case False
    from initializeAttempt_absent[OF False] show ?thesis by (simp add: consoleError_def)
  qed
  then show ?thesis
    using step_keeps[OF assms, of ev] initializeAttempt_keeps[OF assms] assms
    by (simp add: initializeMap_def)
qed

theorem entries_are_never_removed_witness:
  "maps circleScenario ''m1'' = Some \<lparr>map_handle = 0, layers = [2]\<rparr>
   \<and> ''m1'' \<notin> dom_ids (snd (step (Unmounts ''m1'') circleScenario))
   \<and> (\<exists>e'. maps (snd (step (CallClearMap ''m1'') circleScenario)) ''m1'' = Some e' \<and> map_handle e' = 0)
   \<and> maps (snd (initializeAttempt ''m1'' 99 99 1 (snd (step (Unmounts ''m1'') circleScenario)))) ''m1''
       = Some \<lparr>map_handle = 0, layers = [2]\<rparr>
   \<and> heap (snd (initializeAttempt ''m1'' 99 99 1 (snd (step (Unmounts ''m1'') circleScenario)))) 0
       = Some (MapObj \<lparr>container = ''m1'', view = SetView 51.5 (- 0.1) 13\<rparr>)"
proof -
  let ?w = "snd (step (Unmounts ''m1'') circleScenario)"
  have m: "maps ?w ''m1'' = Some \<lparr>map_handle = 0, layers = [2]\<rparr>"
    using circleScenario_maps by simp
  have h: "heap ?w = heap circleScenario" by simp
  have a: "''m1'' \<notin> dom_ids ?w" by simp
  from entries_are_never_removed[OF circleScenario_maps, of "CallClearMap ''m1''"]
    entries_are_never_removed[OF m, of _ 99 99 1] circleScenario_maps circleScenario_heap h a
  show ?thesis by simp
qed

end
